theory Spec2Isabelle
  imports Main
begin

section \<open>The host: session history, location, event listeners\<close>

text \<open>
  The components of simple-router talk to the browser through six members of
  \<^verbatim>\<open>window\<close>: \<^verbatim>\<open>history.pushState\<close>, \<^verbatim>\<open>history.replaceState\<close>,
  \<^verbatim>\<open>history.state\<close>, \<^verbatim>\<open>location.pathname\<close>, \<^verbatim>\<open>addEventListener\<close> /
  \<^verbatim>\<open>removeEventListener\<close> and \<^verbatim>\<open>dispatchEvent\<close>. This section models them.

  The state object of a history entry is either \<^verbatim>\<open>null\<close> (an entry made by a page
  load) or the empty object \<^verbatim>\<open>{}\<close> that \<^verbatim>\<open>Link\<close> writes.
\<close>

datatype state_value = Null | EmptyObject

record history_entry =
  entry_state :: state_value
  entry_pathname :: string

text \<open>
  A DOM element is known by its identity only. A thrown JavaScript \<^verbatim>\<open>Error(msg)\<close> is a
  value.
\<close>

type_synonym element = nat

datatype error = Error string

text \<open>
  The two callbacks the components register for \<^verbatim>\<open>popstate\<close>: the \<^verbatim>\<open>handlePopstate\<close>
  of a \<^verbatim>\<open>Link\<close> instance (instances are numbered) and the one of the \<^verbatim>\<open>Router\<close>.
\<close>

datatype handler = Link_cb nat | Router_cb

text \<open>
  The observation log: \<open>Dispatched\<close> is written when a \<^verbatim>\<open>popstate\<close> event is dispatched
  on the window, \<open>Invoked\<close> when a listener is called; both record the state object and the
  pathname of the current history entry at that moment. No component reads the log.
\<close>

datatype event =
    Dispatched state_value string
  | Invoked handler state_value string

fun is_Dispatched :: "event \<Rightarrow> bool" where
  "is_Dispatched (Dispatched s p) = True"
| "is_Dispatched (Invoked h s p) = False"

fun is_Invoked :: "event \<Rightarrow> bool" where
  "is_Invoked (Dispatched s p) = False"
| "is_Invoked (Invoked h s p) = True"

section \<open>Component state\<close>

text \<open>
  \<^verbatim>\<open>Link\<close> (src/components/Link.tsx): the \<^verbatim>\<open>href\<close> prop and the \<^verbatim>\<open>isCurrent\<close> state of
  \<^verbatim>\<open>React.useState\<close>. \<^verbatim>\<open>Router\<close> (the second module of src/components/Page.tsx): the
  \<^verbatim>\<open>pathname\<close> state and \<^verbatim>\<open>contentRef.current\<close>, which is \<^verbatim>\<open>null\<close> (\<open>None\<close>) until
  \<^verbatim>\<open>Page\<close> attaches its heading.
\<close>

record Link =
  href :: string
  isCurrent :: bool

record Router =
  pathname :: string
  contentRef :: "element option"

record 'v RouteProps =
  title :: string
  component :: 'v

text \<open>
  The world: the session history as the entries below the current one (\<open>past\<close>, nearest
  first), the current entry, and the entries a Forward would reach (\<open>future\<close>); the
  \<^verbatim>\<open>popstate\<close> listeners of the window in registration order; the focused element; the
  mounted components; the exceptions reported from listeners; the observation log.
\<close>

record world =
  past :: "history_entry list"
  current :: history_entry
  future :: "history_entry list"
  listeners :: "handler list"
  activeElement :: "element option"
  links :: "nat \<rightharpoonup> Link"
  router :: Router
  reported :: "error list"
  trace :: "event list"

definition history_state :: "world \<Rightarrow> state_value" where
  "history_state w = entry_state (current w)"

definition location_pathname :: "world \<Rightarrow> string" where
  "location_pathname w = entry_pathname (current w)"

text \<open>
  The stack of the specification is the current entry on top of \<open>past\<close>; its depth is the
  position of the current entry. \<^verbatim>\<open>history.length\<close> also counts the forward entries.
\<close>

definition stack_depth :: "world \<Rightarrow> nat" where
  "stack_depth w = Suc (length (past w))"

definition history_length :: "world \<Rightarrow> nat" where
  "history_length w = length (past w) + 1 + length (future w)"

text \<open>
  \<^verbatim>\<open>history.pushState(state, "", url)\<close> drops the forward entries and puts a new entry
  on top; \<^verbatim>\<open>history.replaceState(state, "", url)\<close> overwrites the current entry. Neither
  dispatches an event. A url is taken to be an absolute pathname in normal form, which
  the URL parser leaves as it is.
\<close>

definition pushState :: "state_value \<Rightarrow> string \<Rightarrow> world \<Rightarrow> world" where
  "pushState s url w =
     w\<lparr>past := current w # past w,
       current := \<lparr>entry_state = s, entry_pathname = url\<rparr>,
       future := []\<rparr>"

definition replaceState :: "state_value \<Rightarrow> string \<Rightarrow> world \<Rightarrow> world" where
  "replaceState s url w = w\<lparr>current := \<lparr>entry_state = s, entry_pathname = url\<rparr>\<rparr>"

text \<open>
  \<^verbatim>\<open>addEventListener\<close> appends the callback unless it is registered already;
  \<^verbatim>\<open>removeEventListener\<close> removes it.
\<close>

definition addEventListener :: "handler \<Rightarrow> world \<Rightarrow> world" where
  "addEventListener h w =
     (if h \<in> set (listeners w) then w else w\<lparr>listeners := listeners w @ [h]\<rparr>)"

definition removeEventListener :: "handler \<Rightarrow> world \<Rightarrow> world" where
  "removeEventListener h w = w\<lparr>listeners := removeAll h (listeners w)\<rparr>"

section \<open>usePopstate (src/hooks/usePopstate.ts)\<close>

text \<open>
  \<^verbatim>\<open>
  React.useEffect(() => {
    window.addEventListener("popstate", handler);
    return () => window.removeEventListener("popstate", handler);
  }, [handler]);
  \<close>
  The effect subscribes and returns its teardown. React runs the effect at mount, the
  teardown at unmount, and teardown-then-effect when \<^verbatim>\<open>handler\<close> changes. The teardown
  closes over \<^verbatim>\<open>handler\<close> only, so it is the same function whatever world the effect
  ran in. \<open>mount_unmount n\<close> mounts and unmounts \<open>n\<close> times.
\<close>

definition usePopstate :: "handler \<Rightarrow> world \<Rightarrow> world \<times> (world \<Rightarrow> world)" where
  "usePopstate h w = (addEventListener h w, \<lambda>w'. removeEventListener h w')"

definition usePopstate_mount :: "handler \<Rightarrow> world \<Rightarrow> world" where
  "usePopstate_mount h w = fst (usePopstate h w)"

definition usePopstate_unmount :: "handler \<Rightarrow> world \<Rightarrow> world" where
  "usePopstate_unmount h w = snd (usePopstate h w) w"

definition usePopstate_replace :: "handler \<Rightarrow> handler \<Rightarrow> world \<Rightarrow> world" where
  "usePopstate_replace old new w = usePopstate_mount new (usePopstate_unmount old w)"

fun mount_unmount :: "nat \<Rightarrow> handler \<Rightarrow> world \<Rightarrow> world" where
  "mount_unmount 0 h w = w"
| "mount_unmount (Suc n) h w = mount_unmount n h (usePopstate_unmount h (usePopstate_mount h w))"

section \<open>Link (src/components/Link.tsx)\<close>

text \<open>
  \<^verbatim>\<open>useState(href === window.location.pathname)\<close>, the \<^verbatim>\<open>handlePopstate\<close> callback
  \<^verbatim>\<open>() => setIsCurrent(href === window.location.pathname)\<close>, and the rendered
  \<^verbatim>\<open>aria-current={isCurrent ? "page" : undefined}\<close>. The \<^verbatim>\<open>href\<close> prop is taken to be
  given: a link has a target pathname.
\<close>

definition Link_init :: "string \<Rightarrow> world \<Rightarrow> Link" where
  "Link_init h w = \<lparr>href = h, isCurrent = (h = location_pathname w)\<rparr>"

definition Link_handlePopstate :: "world \<Rightarrow> Link \<Rightarrow> Link" where
  "Link_handlePopstate w l = l\<lparr>isCurrent := (href l = location_pathname w)\<rparr>"

definition aria_current :: "Link \<Rightarrow> string option" where
  "aria_current l = (if isCurrent l then Some ''page'' else None)"

section \<open>Router (src/components/Page.tsx, second module)\<close>

text \<open>
  \<^verbatim>\<open>const { title, component } = routes[pathname] || routes["/"];\<close>
  The route object is a map from its own keys to entries: a missing key reads
  \<^verbatim>\<open>undefined\<close> (\<open>None\<close>), and an entry, being an object, is truthy, so \<^verbatim>\<open>||\<close> falls
  through on a missing key only. (The members a JavaScript object inherits have names
  without a leading slash; a pathname begins with one and never reads them.) The result
  \<open>None\<close> is the \<^verbatim>\<open>undefined\<close> on which the destructuring would throw.
\<close>

definition Router_resolve :: "(string \<rightharpoonup> 'v RouteProps) \<Rightarrow> string \<Rightarrow> 'v RouteProps option" where
  "Router_resolve routes p = (case routes p of Some r \<Rightarrow> Some r | None \<Rightarrow> routes ''/'')"

definition Router_init :: "world \<Rightarrow> Router" where
  "Router_init w = \<lparr>pathname = location_pathname w, contentRef = None\<rparr>"

text \<open>
  \<^verbatim>\<open>
  if (window.history.state !== null) {
    setPathname(window.location.pathname);
    if (!contentRef.current) {
      throw Error("contentRef must be assigned by <Page> component");
    }
    contentRef.current.focus();
  }
  \<close>
  The result is the exception thrown, if any, and the world the handler leaves behind:
  a state update queued by \<^verbatim>\<open>setPathname\<close> is not undone by a later throw.
\<close>

definition Router_handlePopstate :: "world \<Rightarrow> error option \<times> world" where
  "Router_handlePopstate w =
     (if history_state w \<noteq> Null then
        let w1 = w\<lparr>router := (router w)\<lparr>pathname := location_pathname w\<rparr>\<rparr> in
        (case contentRef (router w) of
           None \<Rightarrow> (Some (Error ''contentRef must be assigned by <Page> component''), w1)
         | Some el \<Rightarrow> (None, w1\<lparr>activeElement := Some el\<rparr>))
      else (None, w))"

section \<open>Dispatching popstate\<close>

text \<open>
  Calling a listener: the callback of a \<^verbatim>\<open>Link\<close> instance updates that instance (a state
  setter of an unmounted instance does nothing); an exception thrown by a callback is
  reported and does not stop the dispatch.
\<close>

definition run_handler :: "handler \<Rightarrow> world \<Rightarrow> world" where
  "run_handler h w =
     (case h of
        Link_cb i \<Rightarrow>
          (case links w i of
             None \<Rightarrow> w
           | Some l \<Rightarrow> w\<lparr>links := (links w)(i \<mapsto> Link_handlePopstate w l)\<rparr>)
      | Router_cb \<Rightarrow>
          (case Router_handlePopstate w of
             (None, w') \<Rightarrow> w'
           | (Some e, w') \<Rightarrow> w'\<lparr>reported := reported w' @ [e]\<rparr>))"

definition invoke :: "handler \<Rightarrow> world \<Rightarrow> world" where
  "invoke h w =
     run_handler h (w\<lparr>trace := trace w @ [Invoked h (history_state w) (location_pathname w)]\<rparr>)"

text \<open>
  \<^verbatim>\<open>window.dispatchEvent(new PopStateEvent("popstate"))\<close>: synchronous, every listener
  registered at the start of the dispatch, in registration order.
\<close>

definition dispatchEvent :: "world \<Rightarrow> world" where
  "dispatchEvent w =
     fold invoke (listeners w)
       (w\<lparr>trace := trace w @ [Dispatched (history_state w) (location_pathname w)]\<rparr>)"

text \<open>
  \<^verbatim>\<open>handleOnClick\<close> of \<^verbatim>\<open>Link\<close>:
  \<^verbatim>\<open>
  e.preventDefault();
  if (isCurrent) { window.history.replaceState({}, "", href); }
  else { window.history.pushState({}, "", href); }
  window.dispatchEvent(new PopStateEvent("popstate"));
  \<close>
  \<^verbatim>\<open>preventDefault\<close> keeps the browser from loading the target, so the world stays the
  same page. \<open>Link_navigate_history\<close> is the part before the dispatch.
\<close>

definition Link_navigate_history :: "Link \<Rightarrow> world \<Rightarrow> world" where
  "Link_navigate_history l w =
     (if isCurrent l then replaceState EmptyObject (href l) w
      else pushState EmptyObject (href l) w)"

definition Link_handleOnClick :: "Link \<Rightarrow> world \<Rightarrow> world" where
  "Link_handleOnClick l w = dispatchEvent (Link_navigate_history l w)"

text \<open>
  The navigation logic as the README documents it ("Programmatic client-side
  navigation"), which it says \<^verbatim>\<open>handleOnClick\<close> performs:
  \<^verbatim>\<open>
  if (href === window.location.pathname) { window.history.replaceState({}, "", href); }
  else { window.history.pushState({}, "", href); }
  \<close>
  It compares with the live pathname, "to prevent adding duplicate adjacent history
  elements with the same href". \<open>documented_navigate_history\<close> follows the README, not
  Link.tsx; it is here to be compared with \<open>Link_navigate_history\<close>.
\<close>

definition documented_navigate_history :: "string \<Rightarrow> world \<Rightarrow> world" where
  "documented_navigate_history h w =
     (if h = location_pathname w then replaceState EmptyObject h w
      else pushState EmptyObject h w)"

text \<open>The events the log gained between an earlier world and a later one.\<close>

definition new_events :: "world \<Rightarrow> world \<Rightarrow> event list" where
  "new_events w w' = drop (length (trace w)) (trace w')"

section \<open>The example application (src/App.tsx)\<close>

text \<open>
  A page load at pathname \<open>p\<close>, then the mount of \<^verbatim>\<open><Link href="/">\<close>,
  \<^verbatim>\<open><Link href="/about">\<close> and the \<^verbatim>\<open>Router\<close>, whose \<^verbatim>\<open>Page\<close> attaches heading
  element 7 to \<^verbatim>\<open>contentRef\<close>; then the effects subscribe in render order.
\<close>

definition page_load :: "string \<Rightarrow> world" where
  "page_load p =
     \<lparr>past = [], current = \<lparr>entry_state = Null, entry_pathname = p\<rparr>, future = [],
      listeners = [], activeElement = None, links = Map.empty,
      router = \<lparr>pathname = p, contentRef = None\<rparr>, reported = [], trace = []\<rparr>"

definition Link_mount :: "nat \<Rightarrow> string \<Rightarrow> world \<Rightarrow> world" where
  "Link_mount i h w = usePopstate_mount (Link_cb i) (w\<lparr>links := (links w)(i \<mapsto> Link_init h w)\<rparr>)"

definition Router_mount :: "element \<Rightarrow> world \<Rightarrow> world" where
  "Router_mount el w =
     usePopstate_mount Router_cb (w\<lparr>router := (Router_init w)\<lparr>contentRef := Some el\<rparr>\<rparr>)"

definition App :: "string \<Rightarrow> world" where
  "App p = Router_mount 7 (Link_mount 1 ''/about'' (Link_mount 0 ''/'' (page_load p)))"

definition App_routes :: "string \<rightharpoonup> string RouteProps" where
  "App_routes =
     [''/'' \<mapsto> \<lparr>title = ''Home'', component = ''Home''\<rparr>,
      ''/about'' \<mapsto> \<lparr>title = ''About'', component = ''About''\<rparr>]"

text \<open>
  Three further worlds. \<open>pushed_world\<close>: an entry for "/about" has been pushed onto the
  history of the application loaded at "/" and no \<^verbatim>\<open>popstate\<close> has been dispatched yet;
  this is the world in the middle of a click on the "/about" link, and also the world
  after any other script has called \<^verbatim>\<open>history.pushState\<close>, which dispatches nothing.
  \<open>about_link\<close> is the "/about" link as rendered by \<open>App ''/''\<close>. \<open>unattached_world\<close>:
  the same history with a \<^verbatim>\<open>Router\<close> whose \<^verbatim>\<open>contentRef\<close> no heading was attached to.
\<close>

definition pushed_world :: world where
  "pushed_world = pushState EmptyObject ''/about'' (App ''/'')"

definition about_link :: Link where
  "about_link = \<lparr>href = ''/about'', isCurrent = False\<rparr>"

definition unattached_world :: world where
  "unattached_world = pushState EmptyObject ''/about'' (page_load ''/'')"

text \<open>Whether a log event is a call of the listener \<open>h\<close>.\<close>

fun invokes :: "handler \<Rightarrow> event \<Rightarrow> bool" where
  "invokes h (Dispatched s p) = False"
| "invokes h (Invoked h' s p) = (h' = h)"

section \<open>Route resolution\<close>

text \<open>
  C5. For a route table with an entry for "/" and any pathname, resolution yields a
  defined entry; for a pathname that is not in the table it yields exactly the "/" entry.
\<close>

theorem Router_resolve_defined:
  assumes "routes ''/'' = Some r0"
  shows "Router_resolve routes p \<noteq> None \<and>
         (routes p = None \<longrightarrow> Router_resolve routes p = Some r0)"
  using assms by (simp add: Router_resolve_def split: option.splits)

theorem Router_resolve_defined_witness:
  "App_routes ''/'' = Some \<lparr>title = ''Home'', component = ''Home''\<rparr> \<and>
   App_routes ''/missing'' = None \<and>
   Router_resolve App_routes ''/missing'' = Some \<lparr>title = ''Home'', component = ''Home''\<rparr> \<and>
   Router_resolve App_routes ''/about'' \<noteq> None"
proof -
  have root: "App_routes ''/'' = Some \<lparr>title = ''Home'', component = ''Home''\<rparr>"
    by (simp add: App_routes_def)
  have missing: "App_routes ''/missing'' = None"
    by (simp add: App_routes_def)
  from Router_resolve_defined [where routes = App_routes and p = "''/missing''", OF root]
       Router_resolve_defined [where routes = App_routes and p = "''/about''", OF root]
       root missing
  show ?thesis by simp
qed

section \<open>What a dispatch leaves alone\<close>

text \<open>
  No listener of this program touches the session history or the listener list, and
  only the dispatch writes the log.
\<close>

lemma Router_handlePopstate_frame:
  "past (snd (Router_handlePopstate w)) = past w"
  "current (snd (Router_handlePopstate w)) = current w"
  "future (snd (Router_handlePopstate w)) = future w"
  "listeners (snd (Router_handlePopstate w)) = listeners w"
  "trace (snd (Router_handlePopstate w)) = trace w"
  "links (snd (Router_handlePopstate w)) = links w"
  by (simp_all add: Router_handlePopstate_def Let_def split: option.splits)

lemma run_handler_frame:
  "past (run_handler h w) = past w"
  "current (run_handler h w) = current w"
  "future (run_handler h w) = future w"
  "listeners (run_handler h w) = listeners w"
  "trace (run_handler h w) = trace w"
proof -
  obtain e w' where r: "Router_handlePopstate w = (e, w')"
    by (cases "Router_handlePopstate w")
  from Router_handlePopstate_frame [of w] r
  have f: "past w' = past w" "current w' = current w" "future w' = future w"
    "listeners w' = listeners w" "trace w' = trace w" by simp_all
  show "past (run_handler h w) = past w"
    using r f by (simp add: run_handler_def split: handler.splits option.splits)
  show "current (run_handler h w) = current w"
    using r f by (simp add: run_handler_def split: handler.splits option.splits)
  show "future (run_handler h w) = future w"
    using r f by (simp add: run_handler_def split: handler.splits option.splits)
  show "listeners (run_handler h w) = listeners w"
    using r f by (simp add: run_handler_def split: handler.splits option.splits)
  show "trace (run_handler h w) = trace w"
    using r f by (simp add: run_handler_def split: handler.splits option.splits)
qed

lemma invoke_frame:
  "past (invoke h w) = past w"
  "current (invoke h w) = current w"
  "future (invoke h w) = future w"
  "listeners (invoke h w) = listeners w"
  "trace (invoke h w) = trace w @ [Invoked h (history_state w) (location_pathname w)]"
  by (simp_all add: invoke_def run_handler_frame)

lemma invoke_reads:
  "history_state (invoke h w) = history_state w"
  "location_pathname (invoke h w) = location_pathname w"
  by (simp_all add: history_state_def location_pathname_def invoke_frame)

lemma fold_invoke_frame:
  "past (fold invoke hs w) = past w \<and>
   current (fold invoke hs w) = current w \<and>
   future (fold invoke hs w) = future w \<and>
   listeners (fold invoke hs w) = listeners w \<and>
   trace (fold invoke hs w) =
     trace w @ map (\<lambda>h. Invoked h (history_state w) (location_pathname w)) hs"
proof (induction hs arbitrary: w)
  case Nil
  show ?case by simp
next
  case (Cons h hs)
  from Cons.IH [of "invoke h w"] show ?case
    by (simp add: invoke_frame invoke_reads)
qed

lemma dispatchEvent_frame:
  "past (dispatchEvent w) = past w"
  "current (dispatchEvent w) = current w"
  "future (dispatchEvent w) = future w"
  "listeners (dispatchEvent w) = listeners w"
  by (simp_all add: dispatchEvent_def fold_invoke_frame)

lemma dispatchEvent_trace:
  "trace (dispatchEvent w) =
     trace w @ Dispatched (history_state w) (location_pathname w) #
       map (\<lambda>h. Invoked h (history_state w) (location_pathname w)) (listeners w)"
  by (simp add: dispatchEvent_def fold_invoke_frame history_state_def location_pathname_def)

lemma Link_navigate_history_reads:
  "history_state (Link_navigate_history l w) = EmptyObject"
  "location_pathname (Link_navigate_history l w) = href l"
  "listeners (Link_navigate_history l w) = listeners w"
  "trace (Link_navigate_history l w) = trace w"
  by (simp_all add: Link_navigate_history_def pushState_def replaceState_def
        history_state_def location_pathname_def)

lemma handleOnClick_new_events:
  "new_events w (Link_handleOnClick l w) =
     Dispatched EmptyObject (href l) # map (\<lambda>h. Invoked h EmptyObject (href l)) (listeners w)"
  by (simp add: new_events_def Link_handleOnClick_def dispatchEvent_trace
        Link_navigate_history_reads)

lemma filter_Dispatched_Invoked:
  "filter is_Dispatched (map (\<lambda>h. Invoked h s p) hs) = []"
  "filter is_Invoked (map (\<lambda>h. Invoked h s p) hs) = map (\<lambda>h. Invoked h s p) hs"
  by (induction hs) simp_all

subsection \<open>The example worlds, evaluated\<close>

lemma App_eval:
  "App p =
     \<lparr>past = [], current = \<lparr>entry_state = Null, entry_pathname = p\<rparr>, future = [],
      listeners = [Link_cb 0, Link_cb 1, Router_cb], activeElement = None,
      links = [0 \<mapsto> \<lparr>href = ''/'', isCurrent = (''/'' = p)\<rparr>,
               1 \<mapsto> \<lparr>href = ''/about'', isCurrent = (''/about'' = p)\<rparr>],
      router = \<lparr>pathname = p, contentRef = Some 7\<rparr>, reported = [], trace = []\<rparr>"
  by (simp add: App_def Router_mount_def Link_mount_def page_load_def usePopstate_mount_def
        usePopstate_def addEventListener_def Link_init_def Router_init_def location_pathname_def)

lemma pushed_world_eval:
  "pushed_world =
     \<lparr>past = [\<lparr>entry_state = Null, entry_pathname = ''/''\<rparr>],
      current = \<lparr>entry_state = EmptyObject, entry_pathname = ''/about''\<rparr>, future = [],
      listeners = [Link_cb 0, Link_cb 1, Router_cb], activeElement = None,
      links = [0 \<mapsto> \<lparr>href = ''/'', isCurrent = True\<rparr>,
               1 \<mapsto> \<lparr>href = ''/about'', isCurrent = False\<rparr>],
      router = \<lparr>pathname = ''/'', contentRef = Some 7\<rparr>, reported = [], trace = []\<rparr>"
  by (simp add: pushed_world_def App_eval pushState_def)

lemma unattached_world_eval:
  "unattached_world =
     \<lparr>past = [\<lparr>entry_state = Null, entry_pathname = ''/''\<rparr>],
      current = \<lparr>entry_state = EmptyObject, entry_pathname = ''/about''\<rparr>, future = [],
      listeners = [], activeElement = None, links = Map.empty,
      router = \<lparr>pathname = ''/'', contentRef = None\<rparr>, reported = [], trace = []\<rparr>"
  by (simp add: unattached_world_def page_load_def pushState_def)

section \<open>Link activation\<close>

text \<open>
  \<^verbatim>\<open>handleOnClick\<close> decides between replace and push by the \<^verbatim>\<open>isCurrent\<close> state of the
  render it belongs to. That state is the comparison of \<^verbatim>\<open>href\<close> with the live pathname
  as it was at mount or at the last \<^verbatim>\<open>popstate\<close> the instance handled.
\<close>

lemma handleOnClick_by_cached_state:
  "isCurrent l \<Longrightarrow>
     past (Link_handleOnClick l w) = past w \<and> future (Link_handleOnClick l w) = future w"
  "\<not> isCurrent l \<Longrightarrow>
     past (Link_handleOnClick l w) = current w # past w \<and> future (Link_handleOnClick l w) = []"
  "current (Link_handleOnClick l w) = \<lparr>entry_state = EmptyObject, entry_pathname = href l\<rparr>"
  by (simp_all add: Link_handleOnClick_def dispatchEvent_frame Link_navigate_history_def
        pushState_def replaceState_def)

lemma Link_init_in_sync:
  "isCurrent (Link_init h w) = (href (Link_init h w) = location_pathname w)"
  by (simp add: Link_init_def)

lemma Link_handlePopstate_in_sync:
  "isCurrent (Link_handlePopstate w l) = (href (Link_handlePopstate w l) = location_pathname w)"
  by (simp add: Link_handlePopstate_def)

text \<open>
  While the cached state agrees with the live location, the click does what the README
  documents; the two part ways exactly where the cache is stale.
\<close>

lemma navigate_history_in_sync:
  "isCurrent l = (href l = location_pathname w) \<Longrightarrow>
   Link_navigate_history l w = documented_navigate_history (href l) w"
  by (simp add: Link_navigate_history_def documented_navigate_history_def)

lemma documented_navigate_history_depth:
  "stack_depth (documented_navigate_history h w) =
     (if h = location_pathname w then stack_depth w else Suc (stack_depth w))"
  by (simp add: documented_navigate_history_def stack_depth_def pushState_def replaceState_def)

text \<open>
  C1 holds of the documented logic and fails on Link.tsx, which reads the cached
  \<^verbatim>\<open>isCurrent\<close> where the claim and the README read the live location. In \<open>pushed_world\<close>
  the live pathname is "/about" and the stack is two deep. Link 1, target "/about", still
  holds \<^verbatim>\<open>isCurrent = false\<close> from its mount at "/": its click pushes a second, adjacent
  "/about" entry (depth 3) where the claim and the README replace (depth 2). Link 0,
  target "/", still holds \<^verbatim>\<open>isCurrent = true\<close>: its click overwrites the "/about" entry
  (depth 2) where the claim and the README push (depth 3).
\<close>

theorem handleOnClick_stale_isCurrent:
  "links pushed_world 1 = Some about_link \<and>
   href about_link = ''/about'' \<and>
   location_pathname pushed_world = ''/about'' \<and>
   stack_depth pushed_world = 2 \<and>
   stack_depth (Link_handleOnClick about_link pushed_world) = 3 \<and>
   past (Link_handleOnClick about_link pushed_world) =
     [\<lparr>entry_state = EmptyObject, entry_pathname = ''/about''\<rparr>,
      \<lparr>entry_state = Null, entry_pathname = ''/''\<rparr>] \<and>
   current (Link_handleOnClick about_link pushed_world) =
     \<lparr>entry_state = EmptyObject, entry_pathname = ''/about''\<rparr> \<and>
   stack_depth (documented_navigate_history ''/about'' pushed_world) = 2 \<and>
   links pushed_world 0 = Some \<lparr>href = ''/'', isCurrent = True\<rparr> \<and>
   stack_depth (Link_handleOnClick \<lparr>href = ''/'', isCurrent = True\<rparr> pushed_world) = 2 \<and>
   past (Link_handleOnClick \<lparr>href = ''/'', isCurrent = True\<rparr> pushed_world) =
     [\<lparr>entry_state = Null, entry_pathname = ''/''\<rparr>] \<and>
   current (Link_handleOnClick \<lparr>href = ''/'', isCurrent = True\<rparr> pushed_world) =
     \<lparr>entry_state = EmptyObject, entry_pathname = ''/''\<rparr> \<and>
   stack_depth (documented_navigate_history ''/'' pushed_world) = 3"
proof -
  have w: "past pushed_world = [\<lparr>entry_state = Null, entry_pathname = ''/''\<rparr>]"
    "current pushed_world = \<lparr>entry_state = EmptyObject, entry_pathname = ''/about''\<rparr>"
    "links pushed_world 1 = Some about_link"
    "links pushed_world 0 = Some \<lparr>href = ''/'', isCurrent = True\<rparr>"
    by (simp_all add: pushed_world_eval about_link_def)
  have loc: "location_pathname pushed_world = ''/about''"
    and d: "stack_depth pushed_world = 2"
    by (simp_all add: location_pathname_def stack_depth_def w)
  have stale: "\<not> isCurrent about_link" and h: "href about_link = ''/about''"
    by (simp_all add: about_link_def)
  have pushed: "past (Link_handleOnClick about_link pushed_world) =
      [\<lparr>entry_state = EmptyObject, entry_pathname = ''/about''\<rparr>,
       \<lparr>entry_state = Null, entry_pathname = ''/''\<rparr>]"
    using handleOnClick_by_cached_state(2) [OF stale, of pushed_world] by (simp add: w)
  have top1: "current (Link_handleOnClick about_link pushed_world) =
      \<lparr>entry_state = EmptyObject, entry_pathname = ''/about''\<rparr>"
    using handleOnClick_by_cached_state(3) [of about_link pushed_world] by (simp add: h)
  have replaced: "past (Link_handleOnClick \<lparr>href = ''/'', isCurrent = True\<rparr> pushed_world) =
      [\<lparr>entry_state = Null, entry_pathname = ''/''\<rparr>]"
    using handleOnClick_by_cached_state(1) [of "\<lparr>href = ''/'', isCurrent = True\<rparr>" pushed_world]
    by (simp add: w)
  have top0: "current (Link_handleOnClick \<lparr>href = ''/'', isCurrent = True\<rparr> pushed_world) =
      \<lparr>entry_state = EmptyObject, entry_pathname = ''/''\<rparr>"
    using handleOnClick_by_cached_state(3) [of "\<lparr>href = ''/'', isCurrent = True\<rparr>" pushed_world]
    by simp
  have doc1: "stack_depth (documented_navigate_history ''/about'' pushed_world) = 2"
    and doc0: "stack_depth (documented_navigate_history ''/'' pushed_world) = 3"
    by (simp_all add: documented_navigate_history_depth loc d)
  have d1: "stack_depth (Link_handleOnClick about_link pushed_world) = 3"
    and d0: "stack_depth (Link_handleOnClick \<lparr>href = ''/'', isCurrent = True\<rparr> pushed_world) = 2"
    by (simp_all add: stack_depth_def pushed replaced)
  from w(3,4) h loc d d1 pushed top1 doc1 d0 replaced top0 doc0 show ?thesis by simp
qed

text \<open>
  C4. A click dispatches exactly one \<^verbatim>\<open>popstate\<close>, whether or not the target was current
  (there is no assumption on \<open>l\<close>); the earlier log is kept; the marker of the top entry is
  the non-null \<^verbatim>\<open>{}\<close> when the event is dispatched and when the click returns.
\<close>

theorem handleOnClick_one_broadcast:
  "filter is_Dispatched (new_events w (Link_handleOnClick l w)) =
     [Dispatched EmptyObject (href l)] \<and>
   take (length (trace w)) (trace (Link_handleOnClick l w)) = trace w \<and>
   history_state (Link_handleOnClick l w) = EmptyObject \<and>
   EmptyObject \<noteq> Null"
proof -
  have "trace (Link_handleOnClick l w) =
     trace w @ Dispatched EmptyObject (href l) #
       map (\<lambda>h. Invoked h EmptyObject (href l)) (listeners w)"
    by (simp add: Link_handleOnClick_def dispatchEvent_trace Link_navigate_history_reads)
  moreover have "history_state (Link_handleOnClick l w) = EmptyObject"
    by (simp add: Link_handleOnClick_def history_state_def dispatchEvent_frame
          Link_navigate_history_reads [unfolded history_state_def])
  ultimately show ?thesis
    by (simp add: handleOnClick_new_events filter_Dispatched_Invoked)
qed

theorem handleOnClick_one_broadcast_witness:
  "filter is_Dispatched (new_events (App ''/'') (Link_handleOnClick about_link (App ''/''))) =
     [Dispatched EmptyObject ''/about''] \<and>
   trace (App ''/'') = [] \<and>
   history_state (App ''/'') = Null \<and>
   history_state (Link_handleOnClick about_link (App ''/'')) = EmptyObject"
proof -
  have "trace (App ''/'') = []" and "history_state (App ''/'') = Null"
    and "href about_link = ''/about''"
    by (simp_all add: App_eval history_state_def about_link_def)
  with handleOnClick_one_broadcast [of "App ''/''" about_link] show ?thesis by simp
qed

text \<open>
  C8. The history mutation of a click is complete before the dispatch begins: the
  mutation writes no log event, the dispatch is logged with the new top entry, every
  listener is called once, in registration order, and reads that same entry (marker
  \<^verbatim>\<open>{}\<close>, pathname \<^verbatim>\<open>href\<close>); the history the click leaves is the mutated one.
\<close>

theorem handleOnClick_mutation_visible:
  "trace (Link_navigate_history l w) = trace w \<and>
   current (Link_navigate_history l w) = \<lparr>entry_state = EmptyObject, entry_pathname = href l\<rparr> \<and>
   new_events w (Link_handleOnClick l w) =
     Dispatched EmptyObject (href l) # map (\<lambda>h. Invoked h EmptyObject (href l)) (listeners w) \<and>
   filter is_Invoked (new_events w (Link_handleOnClick l w)) =
     map (\<lambda>h. Invoked h EmptyObject (href l)) (listeners w) \<and>
   past (Link_handleOnClick l w) = past (Link_navigate_history l w) \<and>
   current (Link_handleOnClick l w) = current (Link_navigate_history l w) \<and>
   future (Link_handleOnClick l w) = future (Link_navigate_history l w)"
proof -
  have cur: "current (Link_navigate_history l w) =
      \<lparr>entry_state = EmptyObject, entry_pathname = href l\<rparr>"
    by (simp add: Link_navigate_history_def pushState_def replaceState_def)
  have seen: "filter is_Invoked (new_events w (Link_handleOnClick l w)) =
      map (\<lambda>h. Invoked h EmptyObject (href l)) (listeners w)"
    by (simp add: handleOnClick_new_events filter_Dispatched_Invoked)
  have after: "past (Link_handleOnClick l w) = past (Link_navigate_history l w)"
    "current (Link_handleOnClick l w) = current (Link_navigate_history l w)"
    "future (Link_handleOnClick l w) = future (Link_navigate_history l w)"
    by (simp_all add: Link_handleOnClick_def dispatchEvent_frame)
  from cur seen after handleOnClick_new_events [of w l] Link_navigate_history_reads(4) [of l w]
  show ?thesis by simp
qed

theorem handleOnClick_mutation_visible_witness:
  "listeners (App ''/'') = [Link_cb 0, Link_cb 1, Router_cb] \<and>
   current (App ''/'') = \<lparr>entry_state = Null, entry_pathname = ''/''\<rparr> \<and>
   new_events (App ''/'') (Link_handleOnClick about_link (App ''/'')) =
     [Dispatched EmptyObject ''/about'', Invoked (Link_cb 0) EmptyObject ''/about'',
      Invoked (Link_cb 1) EmptyObject ''/about'', Invoked Router_cb EmptyObject ''/about''] \<and>
   current (Link_handleOnClick about_link (App ''/'')) =
     \<lparr>entry_state = EmptyObject, entry_pathname = ''/about''\<rparr>"
proof -
  have "listeners (App ''/'') = [Link_cb 0, Link_cb 1, Router_cb]"
    and "current (App ''/'') = \<lparr>entry_state = Null, entry_pathname = ''/''\<rparr>"
    and "href about_link = ''/about''"
    by (simp_all add: App_eval about_link_def)
  with handleOnClick_mutation_visible [of about_link "App ''/''"] show ?thesis by simp
qed

section \<open>Links after a signal\<close>

lemma run_handler_links_other:
  "links (run_handler Router_cb w) = links w"
  "j \<noteq> i \<Longrightarrow> links (run_handler (Link_cb j) w) i = links w i"
proof -
  obtain e w' where r: "Router_handlePopstate w = (e, w')"
    by (cases "Router_handlePopstate w")
  from Router_handlePopstate_frame(6) [of w] r have "links w' = links w" by simp
  with r show "links (run_handler Router_cb w) = links w"
    by (simp add: run_handler_def split: option.splits)
  show "j \<noteq> i \<Longrightarrow> links (run_handler (Link_cb j) w) i = links w i"
    by (simp add: run_handler_def split: option.splits)
qed

lemma run_handler_links_self:
  "links w i = Some l \<Longrightarrow>
   links (run_handler (Link_cb i) w) i =
     Some \<lparr>href = href l, isCurrent = (href l = location_pathname w)\<rparr>"
  by (simp add: run_handler_def Link_handlePopstate_def)

lemma invoke_links:
  assumes l: "links w i = Some l"
  shows "links (invoke h w) i =
     (if h = Link_cb i then Some \<lparr>href = href l, isCurrent = (href l = location_pathname w)\<rparr>
      else Some l)"
proof (cases h)
  case (Link_cb j)
  let ?w = "w\<lparr>trace := trace w @ [Invoked h (history_state w) (location_pathname w)]\<rparr>"
  show ?thesis
  proof (cases "j = i")
    case True
    with Link_cb l run_handler_links_self [of ?w i l] show ?thesis
      by (simp add: invoke_def location_pathname_def)
  next
    case False
    with Link_cb l run_handler_links_other(2) [of j i ?w] show ?thesis
      by (simp add: invoke_def)
  qed
next
  case Router_cb
  with l show ?thesis
    by (simp add: invoke_def run_handler_links_other(1))
qed

lemma fold_invoke_links_in_sync:
  "links w i = Some \<lparr>href = t, isCurrent = (t = location_pathname w)\<rparr> \<Longrightarrow>
   links (fold invoke hs w) i = Some \<lparr>href = t, isCurrent = (t = location_pathname w)\<rparr>"
proof (induction hs arbitrary: w)
  case Nil
  then show ?case by simp
next
  case (Cons h hs)
  from invoke_links [OF Cons.prems, of h]
  have "links (invoke h w) i =
      Some \<lparr>href = t, isCurrent = (t = location_pathname (invoke h w))\<rparr>"
    by (simp add: invoke_reads)
  from Cons.IH [OF this] show ?case by (simp add: invoke_reads)
qed

lemma fold_invoke_links_subscribed:
  "Link_cb i \<in> set hs \<Longrightarrow> links w i = Some l \<Longrightarrow>
   links (fold invoke hs w) i =
     Some \<lparr>href = href l, isCurrent = (href l = location_pathname w)\<rparr>"
proof (induction hs arbitrary: w l)
  case Nil
  then show ?case by simp
next
  case (Cons h hs)
  show ?case
  proof (cases "h = Link_cb i")
    case True
    from invoke_links [OF Cons.prems(2), of h] True
    have "links (invoke h w) i =
        Some \<lparr>href = href l, isCurrent = (href l = location_pathname (invoke h w))\<rparr>"
      by (simp add: invoke_reads)
    from fold_invoke_links_in_sync [OF this, of hs] show ?thesis
      by (simp add: invoke_reads)
  next
    case False
    with Cons.prems(1) have mem: "Link_cb i \<in> set hs" by simp
    from invoke_links [OF Cons.prems(2), of h] False
    have "links (invoke h w) i = Some l" by simp
    from Cons.IH [OF mem this] show ?thesis by (simp add: invoke_reads)
  qed
qed

text \<open>
  C7. The \<^verbatim>\<open>handlePopstate\<close> of a link with target \<open>t\<close> sets \<^verbatim>\<open>isCurrent\<close> to
  \<open>t = live pathname\<close>; and once a dispatched signal has been processed, every mounted
  link whose callback is registered still has its target, has \<^verbatim>\<open>isCurrent\<close> equal to
  \<open>t = live pathname\<close>, and renders \<^verbatim>\<open>aria-current="page"\<close> exactly in that case, whatever
  the other listeners did and wherever in the list they stand.
\<close>

theorem dispatchEvent_links_current:
  assumes "Link_cb i \<in> set (listeners w)" and "links w i = Some l"
  shows "isCurrent (Link_handlePopstate w l) = (href l = location_pathname w) \<and>
         (case links (dispatchEvent w) i of
            None \<Rightarrow> False
          | Some l' \<Rightarrow>
              href l' = href l \<and>
              isCurrent l' = (href l = location_pathname (dispatchEvent w)) \<and>
              aria_current l' =
                (if href l = location_pathname (dispatchEvent w) then Some ''page'' else None))"
proof -
  let ?w0 = "w\<lparr>trace := trace w @ [Dispatched (history_state w) (location_pathname w)]\<rparr>"
  have "links ?w0 i = Some l" using assms(2) by simp
  from fold_invoke_links_subscribed [OF _ this, of "listeners w"] assms(1)
  have "links (dispatchEvent w) i =
      Some \<lparr>href = href l, isCurrent = (href l = location_pathname w)\<rparr>"
    by (simp add: dispatchEvent_def location_pathname_def)
  moreover have "location_pathname (dispatchEvent w) = location_pathname w"
    by (simp add: location_pathname_def dispatchEvent_frame)
  ultimately show ?thesis
    by (simp add: Link_handlePopstate_def aria_current_def)
qed

text \<open>
  After the push of "/about" and the signal, the "/about" link is current and the "/"
  link is not.
\<close>

theorem dispatchEvent_links_current_witness:
  "Link_cb 1 \<in> set (listeners pushed_world) \<and>
   links pushed_world 1 = Some \<lparr>href = ''/about'', isCurrent = False\<rparr> \<and>
   location_pathname (dispatchEvent pushed_world) = ''/about'' \<and>
   map_option isCurrent (links (dispatchEvent pushed_world) 1) = Some True \<and>
   map_option aria_current (links (dispatchEvent pushed_world) 1) = Some (Some ''page'') \<and>
   Link_cb 0 \<in> set (listeners pushed_world) \<and>
   links pushed_world 0 = Some \<lparr>href = ''/'', isCurrent = True\<rparr> \<and>
   map_option isCurrent (links (dispatchEvent pushed_world) 0) = Some False \<and>
   map_option aria_current (links (dispatchEvent pushed_world) 0) = Some None"
proof -
  have s1: "Link_cb 1 \<in> set (listeners pushed_world)"
    and l1: "links pushed_world 1 = Some \<lparr>href = ''/about'', isCurrent = False\<rparr>"
    and s0: "Link_cb 0 \<in> set (listeners pushed_world)"
    and l0: "links pushed_world 0 = Some \<lparr>href = ''/'', isCurrent = True\<rparr>"
    by (simp_all add: pushed_world_eval)
  have loc: "location_pathname (dispatchEvent pushed_world) = ''/about''"
    by (simp add: location_pathname_def dispatchEvent_frame pushed_world_eval)
  from dispatchEvent_links_current [OF s1 l1] dispatchEvent_links_current [OF s0 l0]
    s1 l1 s0 l0 loc
  show ?thesis by (simp split: option.splits)
qed

section \<open>The Router's handler\<close>

text \<open>
  C2. On a signal whose top entry has a non-null marker the \<^verbatim>\<open>Router\<close> sets its
  \<^verbatim>\<open>pathname\<close> state to the live pathname, which the handler does not change; and
  when a heading \<open>el\<close> is registered in \<^verbatim>\<open>contentRef\<close>, it moves the focus to that
  heading and throws nothing.
\<close>

theorem Router_handlePopstate_nonnull:
  assumes "history_state w \<noteq> Null"
  shows "pathname (router (snd (Router_handlePopstate w))) = location_pathname w \<and>
         location_pathname (snd (Router_handlePopstate w)) = location_pathname w \<and>
         (contentRef (router w) = Some el \<longrightarrow>
            fst (Router_handlePopstate w) = None \<and>
            activeElement (snd (Router_handlePopstate w)) = Some el)"
  using assms
  by (simp add: Router_handlePopstate_def Let_def location_pathname_def split: option.splits)

theorem Router_handlePopstate_nonnull_witness:
  "history_state pushed_world \<noteq> Null \<and>
   contentRef (router pushed_world) = Some 7 \<and>
   pathname (router pushed_world) = ''/'' \<and>
   fst (Router_handlePopstate pushed_world) = None \<and>
   pathname (router (snd (Router_handlePopstate pushed_world))) = ''/about'' \<and>
   activeElement (snd (Router_handlePopstate pushed_world)) = Some 7"
proof -
  have a: "history_state pushed_world \<noteq> Null"
    and b: "contentRef (router pushed_world) = Some 7"
    and c: "pathname (router pushed_world) = ''/''"
    and d: "location_pathname pushed_world = ''/about''"
    by (simp_all add: pushed_world_eval history_state_def location_pathname_def)
  from Router_handlePopstate_nonnull [OF a, of 7] a b c d show ?thesis by simp
qed

text \<open>
  C3. On a signal whose top entry has the null marker the \<^verbatim>\<open>Router\<close> keeps its
  \<^verbatim>\<open>pathname\<close> state, moves no focus and throws nothing: the world is left as it was.
\<close>

theorem Router_handlePopstate_null:
  assumes "history_state w = Null"
  shows "fst (Router_handlePopstate w) = None \<and>
         pathname (router (snd (Router_handlePopstate w))) = pathname (router w) \<and>
         activeElement (snd (Router_handlePopstate w)) = activeElement w \<and>
         snd (Router_handlePopstate w) = w"
  using assms by (simp add: Router_handlePopstate_def)

text \<open>The application loaded at "/about": the resolver stays at "/about", nothing is focused.\<close>

theorem Router_handlePopstate_null_witness:
  "history_state (App ''/about'') = Null \<and>
   pathname (router (App ''/about'')) = ''/about'' \<and>
   fst (Router_handlePopstate (App ''/about'')) = None \<and>
   pathname (router (snd (Router_handlePopstate (App ''/about'')))) = ''/about'' \<and>
   activeElement (snd (Router_handlePopstate (App ''/about''))) = None"
proof -
  have a: "history_state (App ''/about'') = Null"
    and b: "pathname (router (App ''/about'')) = ''/about''"
    and c: "activeElement (App ''/about'') = None"
    by (simp_all add: App_eval history_state_def)
  from Router_handlePopstate_null [OF a] a b c show ?thesis by simp
qed

text \<open>
  C6. On a signal with a non-null marker and no heading registered, the handler throws
  \<^verbatim>\<open>Error("contentRef must be assigned by <Page> component")\<close> and moves no focus; the
  dispatch reports the exception, so the condition is not passed over in silence.
\<close>

theorem Router_handlePopstate_throws:
  assumes "history_state w \<noteq> Null" and "contentRef (router w) = None"
  shows "fst (Router_handlePopstate w) =
           Some (Error ''contentRef must be assigned by <Page> component'') \<and>
         activeElement (snd (Router_handlePopstate w)) = activeElement w \<and>
         reported (run_handler Router_cb w) =
           reported w @ [Error ''contentRef must be assigned by <Page> component'']"
  using assms by (simp add: Router_handlePopstate_def Let_def run_handler_def)

theorem Router_handlePopstate_throws_witness:
  "history_state unattached_world \<noteq> Null \<and>
   contentRef (router unattached_world) = None \<and>
   fst (Router_handlePopstate unattached_world) =
     Some (Error ''contentRef must be assigned by <Page> component'') \<and>
   activeElement (snd (Router_handlePopstate unattached_world)) = None \<and>
   reported (run_handler Router_cb unattached_world) =
     [Error ''contentRef must be assigned by <Page> component'']"
proof -
  have a: "history_state unattached_world \<noteq> Null"
    and b: "contentRef (router unattached_world) = None"
    and c: "activeElement unattached_world = None"
    and d: "reported unattached_world = []"
    by (simp_all add: unattached_world_eval history_state_def)
  from Router_handlePopstate_throws [OF a b] a b c d show ?thesis by simp
qed

text \<open>
  C9. In that failing case the \<^verbatim>\<open>pathname\<close> state has already been set to the live
  pathname when the error is thrown: the handler fails and still changes the resolver's
  state whenever the state was not the live pathname before.
\<close>

theorem Router_handlePopstate_not_atomic:
  assumes "history_state w \<noteq> Null" and "contentRef (router w) = None"
  shows "fst (Router_handlePopstate w) \<noteq> None \<and>
         pathname (router (snd (Router_handlePopstate w))) = location_pathname w \<and>
         (pathname (router w) \<noteq> location_pathname w \<longrightarrow>
            router (snd (Router_handlePopstate w)) \<noteq> router w)"
proof -
  have upd: "snd (Router_handlePopstate w) =
      w\<lparr>router := (router w)\<lparr>pathname := location_pathname w\<rparr>\<rparr>"
    and err: "fst (Router_handlePopstate w) \<noteq> None"
    using assms by (simp_all add: Router_handlePopstate_def Let_def)
  have "router (snd (Router_handlePopstate w)) \<noteq> router w"
    if ne: "pathname (router w) \<noteq> location_pathname w"
  proof
    assume "router (snd (Router_handlePopstate w)) = router w"
    then have "pathname (router (snd (Router_handlePopstate w))) = pathname (router w)"
      by simp
    with upd ne show False by simp
  qed
  with upd err show ?thesis by simp
qed

theorem Router_handlePopstate_not_atomic_witness:
  "history_state unattached_world \<noteq> Null \<and>
   contentRef (router unattached_world) = None \<and>
   pathname (router unattached_world) = ''/'' \<and>
   fst (Router_handlePopstate unattached_world) \<noteq> None \<and>
   pathname (router (snd (Router_handlePopstate unattached_world))) = ''/about'' \<and>
   router (snd (Router_handlePopstate unattached_world)) \<noteq> router unattached_world"
proof -
  have a: "history_state unattached_world \<noteq> Null"
    and b: "contentRef (router unattached_world) = None"
    and c: "pathname (router unattached_world) = ''/''"
    and d: "location_pathname unattached_world = ''/about''"
    by (simp_all add: unattached_world_eval history_state_def location_pathname_def)
  from Router_handlePopstate_not_atomic [OF a b] a b c d show ?thesis by simp
qed

section \<open>The subscription lifecycle\<close>

lemma filter_invokes_absent:
  "h \<notin> set hs \<Longrightarrow> filter (invokes h) (map (\<lambda>h'. Invoked h' s p) hs) = []"
  by (induction hs) auto

lemma dispatchEvent_never_invokes:
  "h \<notin> set (listeners w) \<Longrightarrow> filter (invokes h) (new_events w (dispatchEvent w)) = []"
  by (simp add: new_events_def dispatchEvent_trace filter_invokes_absent)

lemma mount_unmount_id:
  "h \<notin> set (listeners w) \<Longrightarrow> usePopstate_unmount h (usePopstate_mount h w) = w"
  by (simp add: usePopstate_unmount_def usePopstate_mount_def usePopstate_def
        addEventListener_def removeEventListener_def)

lemma mount_unmount_repeat:
  "h \<notin> set (listeners w) \<Longrightarrow> mount_unmount n h w = w"
  by (induction n) (simp_all add: mount_unmount_id)

text \<open>
  C10, as the code has it. For a handler that is not registered yet: the effect adds
  exactly that handler to the listener set; the teardown it returns, run next, gives back
  the world as it was; any number of mount/unmount rounds leaves no subscription behind.
  For any handlers: replacing \<open>old\<close> by \<open>new\<close> leaves the listener set with \<open>old\<close> removed
  and \<open>new\<close> added; after the teardown, in whatever world it runs, the handler is not
  registered and a dispatch does not call it.
\<close>

theorem usePopstate_roundtrip:
  assumes "h \<notin> set (listeners w)"
  shows "set (listeners (fst (usePopstate h w))) = insert h (set (listeners w)) \<and>
         snd (usePopstate h w) (fst (usePopstate h w)) = w \<and>
         mount_unmount n h w = w \<and>
         set (listeners (usePopstate_replace old new v)) =
           insert new (set (listeners v) - {old}) \<and>
         h \<notin> set (listeners (snd (usePopstate h w) v)) \<and>
         filter (invokes h)
           (new_events (snd (usePopstate h w) v) (dispatchEvent (snd (usePopstate h w) v))) = []"
proof -
  have sub: "set (listeners (fst (usePopstate h w))) = insert h (set (listeners w))"
    by (auto simp add: usePopstate_def addEventListener_def)
  have restored: "snd (usePopstate h w) (fst (usePopstate h w)) = w"
    using assms by (simp add: usePopstate_def addEventListener_def removeEventListener_def)
  have rep: "set (listeners (usePopstate_replace old new v)) =
      insert new (set (listeners v) - {old})"
    by (auto simp add: usePopstate_replace_def usePopstate_mount_def usePopstate_unmount_def
          usePopstate_def addEventListener_def removeEventListener_def)
  have gone: "h \<notin> set (listeners (snd (usePopstate h w) v))"
    by (simp add: usePopstate_def removeEventListener_def)
  from sub restored rep gone mount_unmount_repeat [OF assms, of n]
    dispatchEvent_never_invokes [OF gone]
  show ?thesis by simp
qed

theorem usePopstate_roundtrip_witness:
  "Link_cb 5 \<notin> set (listeners (App ''/'')) \<and>
   listeners (fst (usePopstate (Link_cb 5) (App ''/''))) =
     [Link_cb 0, Link_cb 1, Router_cb, Link_cb 5] \<and>
   snd (usePopstate (Link_cb 5) (App ''/'')) (fst (usePopstate (Link_cb 5) (App ''/''))) =
     App ''/'' \<and>
   mount_unmount 3 (Link_cb 5) (App ''/'') = App ''/''"
proof -
  have fresh: "Link_cb 5 \<notin> set (listeners (App ''/''))"
    by (simp add: App_eval)
  have "listeners (fst (usePopstate (Link_cb 5) (App ''/''))) =
      [Link_cb 0, Link_cb 1, Router_cb, Link_cb 5]"
    by (simp add: App_eval usePopstate_def addEventListener_def)
  with fresh usePopstate_roundtrip [OF fresh, of 3 Router_cb Router_cb "App ''/''"]
  show ?thesis by simp
qed

text \<open>
  C10 as stated fails for a handler that is registered already: subscribing it again
  adds nothing, and the teardown then removes the registration that was there before.
  In \<open>App ''/''\<close> the Router's callback is registered; one more effect with the same
  callback, run and torn down, leaves the listener set without it.
\<close>

theorem usePopstate_registered_counterexample:
  "Router_cb \<in> set (listeners (App ''/'')) \<and>
   set (listeners (snd (usePopstate Router_cb (App ''/''))
                     (fst (usePopstate Router_cb (App ''/''))))) \<noteq>
   set (listeners (App ''/'')) \<and>
   listeners (snd (usePopstate Router_cb (App ''/'')) (fst (usePopstate Router_cb (App ''/'')))) =
     [Link_cb 0, Link_cb 1]"
proof -
  have before: "listeners (App ''/'') = [Link_cb 0, Link_cb 1, Router_cb]"
    by (simp add: App_eval)
  have after: "listeners (snd (usePopstate Router_cb (App ''/''))
                 (fst (usePopstate Router_cb (App ''/'')))) = [Link_cb 0, Link_cb 1]"
    by (simp add: App_eval usePopstate_def addEventListener_def removeEventListener_def)
  have "Router_cb \<in> set [Link_cb 0, Link_cb 1, Router_cb]" by simp
  moreover have "Router_cb \<notin> set [Link_cb 0, Link_cb 1]" by simp
  ultimately have "set [Link_cb 0, Link_cb 1] \<noteq> set [Link_cb 0, Link_cb 1, Router_cb]"
    by metis
  with before after show ?thesis by simp
qed

end
